theory Spec2Isabelle
  imports Complex_Main
begin

section \<open>Strings\<close>

text \<open>
  A JavaScript string is a sequence of UTF-16 code units. A code unit is modelled as a
  natural number and a string as the list of its code units, so \<open>line[i]\<close>,
  \<open>includes\<close>, \<open>split\<close> and \<open>trim\<close> work on the same elements as in the source.
  \<open>lit\<close> writes an ASCII literal.
\<close>

type_synonym jchar = nat
type_synonym jstring = "nat list"

definition lit :: "string \<Rightarrow> jstring" where
  "lit s = map of_char s"

text \<open>
  The characters removed by \<open>String.prototype.trim\<close> and matched by \<open>\s\<close>:
  white space and line terminators of ECMAScript.
\<close>

definition isSpace :: "jchar \<Rightarrow> bool" where
  "isSpace c \<longleftrightarrow>
     c = 9 \<or> c = 10 \<or> c = 11 \<or> c = 12 \<or> c = 13 \<or> c = 32 \<or> c = 160 \<or> c = 5760 \<or>
     (8192 \<le> c \<and> c \<le> 8202) \<or> c = 8232 \<or> c = 8233 \<or> c = 8239 \<or> c = 8287 \<or>
     c = 12288 \<or> c = 65279"

definition trimEnd :: "jstring \<Rightarrow> jstring" where
  "trimEnd s = rev (dropWhile isSpace (rev s))"

definition trim :: "jstring \<Rightarrow> jstring" where
  "trim s = trimEnd (dropWhile isSpace s)"

text \<open>\<open>\d\<close> without the unicode flag: the ASCII digits.\<close>

definition isDigit :: "jchar \<Rightarrow> bool" where
  "isDigit c \<longleftrightarrow> 48 \<le> c \<and> c \<le> 57"

text \<open>
  \<open>toLowerCase\<close> on the letters A to Z. Code units outside ASCII are left as they are:
  the strings compared with its result below are ASCII words that contain neither
  \<open>k\<close> nor \<open>i\<close>, the only ASCII letters that a non-ASCII character lower-cases to.
\<close>

definition toLowerCase :: "jstring \<Rightarrow> jstring" where
  "toLowerCase s = map (\<lambda>c. if 65 \<le> c \<and> c \<le> 90 then c + 32 else c) s"

text \<open>\<open>s.split(sep)\<close> for a separator of one code unit.\<close>

fun splitOn :: "jchar \<Rightarrow> jstring \<Rightarrow> jstring list" where
  "splitOn sep [] = [[]]"
| "splitOn sep (c # cs) =
     (if c = sep then [] # splitOn sep cs
      else (case splitOn sep cs of
              [] \<Rightarrow> [[c]]
            | p # ps \<Rightarrow> (c # p) # ps))"

text \<open>\<open>xs.indexOf(x)\<close> for an element that occurs in \<open>xs\<close> (the index of its first
  occurrence); the length of \<open>xs\<close> stands for the source's \<open>-1\<close> otherwise.\<close>

fun indexOf :: "'a list \<Rightarrow> 'a \<Rightarrow> nat" where
  "indexOf [] x = 0"
| "indexOf (y # ys) x = (if y = x then 0 else Suc (indexOf ys x))"

text \<open>The decimal digits of a number, as template literals print it.\<close>

fun digitsOf :: "nat \<Rightarrow> jstring" where
  "digitsOf n = (if n < 10 then [48 + n] else digitsOf (n div 10) @ [48 + n mod 10])"

declare digitsOf.simps [simp del]

section \<open>Cell values\<close>

text \<open>
  The values a grid cell holds in the source: \<open>null\<close>, a string, a number, a boolean or
  a \<open>Date\<close>. The empty string is the empty cell. A number carries the exact decimal
  value that \<open>parseFloat\<close> reads; the rounding of that value to the nearest double is
  not modelled, its overflow to \<open>Infinity\<close> is. A date carries year, month and day.
\<close>

datatype cell =
    CNull
  | CStr jstring
  | CNum rat
  | CBool bool
  | CDate nat nat nat

type_synonym grid = "cell list list"

section \<open>CellTypeNormalizer: normalizeCell\<close>

text \<open>
  \<open>/^-?[\d,]+\.?\d*$/\<close>: after an optional minus sign, a non-empty run of digits and
  commas, then either nothing or a dot followed by digits only.
\<close>

definition isDigitOrComma :: "jchar \<Rightarrow> bool" where
  "isDigitOrComma c \<longleftrightarrow> isDigit c \<or> c = 44"

definition stripMinus :: "jstring \<Rightarrow> jstring" where
  "stripMinus s = (case s of [] \<Rightarrow> [] | c # cs \<Rightarrow> if c = 45 then cs else s)"

definition numberMatch :: "jstring \<Rightarrow> bool" where
  "numberMatch s \<longleftrightarrow>
     (let body = stripMinus s;
          pre = takeWhile (\<lambda>c. c \<noteq> 46) body;
          post = dropWhile (\<lambda>c. c \<noteq> 46) body
      in pre \<noteq> [] \<and> list_all isDigitOrComma pre \<and>
         (post = [] \<or> list_all isDigit (tl post)))"

text \<open>\<open>s.replace(/,/g, '')\<close>.\<close>

definition removeCommas :: "jstring \<Rightarrow> jstring" where
  "removeCommas s = filter (\<lambda>c. c \<noteq> 44) s"

definition digitsValue :: "jstring \<Rightarrow> nat" where
  "digitsValue ds = foldl (\<lambda>acc d. 10 * acc + (d - 48)) 0 ds"

text \<open>
  \<open>parseFloat\<close> on a string that starts with an optional minus sign, digits, an optional
  dot and digits (the strings left by the numeric pattern once the commas are removed):
  the longest such prefix is read; \<open>None\<close> is \<open>NaN\<close>, returned when there is no digit.
\<close>

definition parseFloat :: "jstring \<Rightarrow> rat option" where
  "parseFloat s =
     (let neg = (s \<noteq> [] \<and> hd s = 45);
          body = stripMinus s;
          ip = takeWhile isDigit body;
          rest = dropWhile isDigit body;
          fp = (case rest of [] \<Rightarrow> [] | c # cs \<Rightarrow> if c = 46 then takeWhile isDigit cs else [])
      in if ip = [] \<and> fp = [] then None
         else let v = of_int (int (digitsValue ip)) + of_int (int (digitsValue fp)) / 10 ^ length fp
              in Some (if neg then - v else v))"

text \<open>
  \<open>isFinite\<close> of the double nearest to \<open>v\<close>: rounding to nearest gives \<open>Infinity\<close>
  from the midpoint between the largest double and \<open>2 ^ 1024\<close> on.
\<close>

definition isFiniteNum :: "rat \<Rightarrow> bool" where
  "isFiniteNum v \<longleftrightarrow> \<bar>v\<bar> < 2 ^ 1024 - 2 ^ 970"

definition numberRule :: "jstring \<Rightarrow> rat option" where
  "numberRule trimmed =
     (if numberMatch trimmed \<and> 40 \<notin> set trimmed then
        (case parseFloat (removeCommas trimmed) of
           Some num \<Rightarrow> if isFiniteNum num then Some num else None
         | None \<Rightarrow> None)
      else None)"

text \<open>\<open>/^(-?[\d,]+\.?\d*)\s*%$/\<close>: the numeric pattern, white space, a final percent sign.\<close>

definition percentGroup :: "jstring \<Rightarrow> jstring option" where
  "percentGroup s =
     (if s \<noteq> [] \<and> last s = 37 \<and> numberMatch (trimEnd (butlast s))
      then Some (trimEnd (butlast s)) else None)"

definition percentRule :: "jstring \<Rightarrow> rat option" where
  "percentRule trimmed =
     (case percentGroup trimmed of
        Some g \<Rightarrow>
          (case parseFloat (removeCommas g) of
             Some num \<Rightarrow> if isFiniteNum num then Some (num / 100) else None
           | None \<Rightarrow> None)
      | None \<Rightarrow> None)"

text \<open>
  \<open>/^\d{4}-\d{2}-\d{2}$/\<close>, then \<open>parseISO\<close> and \<open>isValid\<close> of date-fns: on a string of
  this shape the date is valid when the month is 1 to 12 and the day exists in that month
  of that year.
\<close>

definition simpleDatePattern :: "jstring \<Rightarrow> bool" where
  "simpleDatePattern s \<longleftrightarrow>
     length s = 10 \<and> list_all isDigit (take 4 s) \<and> s ! 4 = 45 \<and>
     list_all isDigit (take 2 (drop 5 s)) \<and> s ! 7 = 45 \<and> list_all isDigit (drop 8 s)"

definition isLeapYear :: "nat \<Rightarrow> bool" where
  "isLeapYear y \<longleftrightarrow> y mod 400 = 0 \<or> (y mod 4 = 0 \<and> y mod 100 \<noteq> 0)"

definition daysInMonth :: "nat \<Rightarrow> nat \<Rightarrow> nat" where
  "daysInMonth y m =
     (if m = 2 then (if isLeapYear y then 29 else 28)
      else if m = 4 \<or> m = 6 \<or> m = 9 \<or> m = 11 then 30 else 31)"

definition dateRule :: "jstring \<Rightarrow> (nat \<times> nat \<times> nat) option" where
  "dateRule trimmed =
     (if simpleDatePattern trimmed then
        (let y = digitsValue (take 4 trimmed);
             m = digitsValue (take 2 (drop 5 trimmed));
             d = digitsValue (drop 8 trimmed)
         in if 1 \<le> m \<and> m \<le> 12 \<and> 1 \<le> d \<and> d \<le> daysInMonth y m then Some (y, m, d) else None)
      else None)"

definition booleanRule :: "jstring \<Rightarrow> bool option" where
  "booleanRule trimmed =
     (let lowerValue = toLowerCase trimmed
      in if lowerValue = lit ''true'' \<or> lowerValue = [52280] \<or> lowerValue = lit ''yes''
         then Some True
         else if lowerValue = lit ''false'' \<or> lowerValue = [44144, 51667] \<or> lowerValue = lit ''no''
         then Some False
         else None)"

definition normalizeCell :: "jstring \<Rightarrow> cell" where
  "normalizeCell value =
     (if value = [] \<or> trim value = [] then CStr []
      else
        let trimmed = trim value in
        if 40 \<in> set trimmed \<and> 41 \<in> set trimmed then CStr trimmed
        else
          (case numberRule trimmed of
             Some num \<Rightarrow> CNum num
           | None \<Rightarrow>
          (case percentRule trimmed of
             Some p \<Rightarrow> CNum p
           | None \<Rightarrow>
          (case dateRule trimmed of
             Some (y, m, d) \<Rightarrow> CDate y m d
           | None \<Rightarrow>
          (case booleanRule trimmed of
             Some b \<Rightarrow> CBool b
           | None \<Rightarrow> CStr trimmed)))))"

section \<open>RowParser: parseCSVLine\<close>

text \<open>
  The scanner of \<open>parseCSVLine\<close>: the loop over the characters with the variables
  \<open>inQuotes\<close>, \<open>quoteChar\<close>, \<open>current\<close> and \<open>result\<close>. The escaped quote skips
  one character (\<open>i++\<close>). At the end of the line the last cell is pushed, whatever the
  state is.
\<close>

fun scanLine :: "jstring \<Rightarrow> bool \<Rightarrow> jstring \<Rightarrow> jstring \<Rightarrow> jstring list \<Rightarrow> jstring \<Rightarrow> jstring list" where
  "scanLine delimiter inQuotes quoteChar current result [] = result @ [trim current]"
| "scanLine delimiter inQuotes quoteChar current result (c # cs) =
     (if \<not> inQuotes then
        (if c = 34 \<or> c = 39 then scanLine delimiter True [c] current result cs
         else if [c] = delimiter then scanLine delimiter False quoteChar [] (result @ [trim current]) cs
         else scanLine delimiter False quoteChar (current @ [c]) result cs)
      else
        (if [c] = quoteChar then
           (case cs of
              [] \<Rightarrow> scanLine delimiter False [] current result cs
            | c' # cs' \<Rightarrow>
                if [c'] = quoteChar then scanLine delimiter True quoteChar (current @ [c]) result cs'
                else scanLine delimiter False [] current result cs)
         else scanLine delimiter True quoteChar (current @ [c]) result cs))"

definition parseCSVLine :: "jstring \<Rightarrow> jstring \<Rightarrow> jstring list" where
  "parseCSVLine line delimiter = scanLine delimiter False [] [] [] (trim line)"

section \<open>DelimiterInferencer: detectDelimiter\<close>

text \<open>
  The candidates are the tab, the comma, the semicolon and the pipe, in this order; the
  result is the code unit of the chosen one. The score is computed in exact rational
  arithmetic (the source computes it in doubles; binary rounding is not modelled).
\<close>

definition nonBlank :: "jstring \<Rightarrow> bool" where
  "nonBlank line \<longleftrightarrow> trim line \<noteq> []"

definition sampleLines :: "jstring \<Rightarrow> jstring list" where
  "sampleLines text = filter nonBlank (take 10 (splitOn 10 text))"

definition delimiters :: "jchar list" where
  "delimiters = [9, 44, 59, 124]"

definition columnCounts :: "jchar \<Rightarrow> jstring list \<Rightarrow> nat list" where
  "columnCounts delimiter lines =
     filter (\<lambda>columnCount. columnCount > 1)
       (map (\<lambda>line. length (splitOn delimiter line)) (filter nonBlank lines))"

definition scoreOf :: "nat list \<Rightarrow> rat" where
  "scoreOf counts =
     (if counts = [] then 0
      else
        let avgColumns = of_int (int (sum_list counts)) / of_int (int (length counts));
            maxCols = fold max counts 0;
            minCols = fold min counts maxCols;
            consistency = (if maxCols > 10 then 4 / 5
                           else 1 - of_int (int (maxCols - minCols)) / max avgColumns 1)
        in avgColumns * max consistency (1 / 2) * of_int (int (length counts)))"

fun pickBest :: "(jchar \<Rightarrow> rat) \<Rightarrow> jchar list \<Rightarrow> jchar \<times> rat \<Rightarrow> jchar \<times> rat" where
  "pickBest score [] best = best"
| "pickBest score (delimiter # rest) (bestDelimiter, maxScore) =
     (if score delimiter > maxScore then pickBest score rest (delimiter, score delimiter)
      else pickBest score rest (bestDelimiter, maxScore))"

definition delimiterScore :: "jstring \<Rightarrow> jchar \<Rightarrow> rat" where
  "delimiterScore text delimiter = scoreOf (columnCounts delimiter (sampleLines text))"

definition detectDelimiter :: "jstring \<Rightarrow> jchar" where
  "detectDelimiter text = fst (pickBest (delimiterScore text) delimiters (44, 0))"




section \<open>RecoveryPipeline: textBasedRecovery\<close>

text \<open>The placeholder of a blank header cell: the two Hangul syllables of the source's
  template followed by a number.\<close>

definition placeholder :: "nat \<Rightarrow> jstring" where
  "placeholder n = [52972, 47100] @ digitsOf n"

definition headerCells :: "jstring list \<Rightarrow> cell list" where
  "headerCells cells =
     map (\<lambda>cell. CStr (if trim cell \<noteq> [] then trim cell
                         else placeholder (indexOf cells cell + 1))) cells"

definition processedCells :: "nat \<Rightarrow> jstring list \<Rightarrow> cell list" where
  "processedCells lineIndex cells =
     (if lineIndex = 0 then headerCells cells else map normalizeCell cells)"

definition someNonEmpty :: "cell list \<Rightarrow> bool" where
  "someNonEmpty row \<longleftrightarrow> list_ex (\<lambda>cell. cell \<noteq> CNull \<and> cell \<noteq> CStr []) row"

text \<open>
  The loop over the lines, with the variables \<open>data\<close> and \<open>maxColumns\<close>. The row parser
  and the cell normalizer return on every string, so the \<open>catch\<close> branch of the source
  (the chain of fallback splitters) is never entered and has no counterpart here.
\<close>

fun recoverLines :: "jchar \<Rightarrow> nat \<Rightarrow> jstring list \<Rightarrow> grid \<times> nat \<Rightarrow> grid \<times> nat" where
  "recoverLines delimiter lineIndex [] st = st"
| "recoverLines delimiter lineIndex (line # rest) (data, maxColumns) =
     (let cells = parseCSVLine line [delimiter];
          row = processedCells lineIndex cells;
          maxColumns' = max maxColumns (length row);
          data' = (if lineIndex = 0 \<or> someNonEmpty row then data @ [row] else data)
      in recoverLines delimiter (Suc lineIndex) rest (data', maxColumns'))"

definition padRow :: "nat \<Rightarrow> cell list \<Rightarrow> cell list" where
  "padRow maxColumns row = row @ replicate (maxColumns - length row) (CStr [])"

definition recoveredData :: "jstring \<Rightarrow> grid" where
  "recoveredData text =
     (let delimiter = detectDelimiter text;
          lines = filter nonBlank (splitOn 10 text);
          (data, maxColumns) = recoverLines delimiter 0 lines ([], 0)
      in map (padRow maxColumns) data)"

section \<open>The spreadsheet library and the workbook\<close>

text \<open>
  The calls into the spreadsheet library and into the codecs are parameters of the
  model: \<open>decodeText\<close> is \<open>detectAndDecode\<close> (a sequence of codec calls),
  \<open>xlsxRead\<close> is \<open>XLSX.read\<close> (\<open>None\<close> when it throws), \<open>sheet_to_json\<close> and
  \<open>aoa_to_sheet\<close> convert between a worksheet and its array of rows, \<open>xlsxWrite\<close>
  is \<open>XLSX.write\<close> (\<open>None\<close> when it throws). A workbook is the list of its sheets in
  the order of \<open>SheetNames\<close>, each with its name. The worksheet conversions and
  \<open>book_append_sheet\<close> are taken to return: a failure inside them has no branch here.
\<close>

type_synonym buffer = "nat list"

record 'ws xlsx =
  decodeText :: "buffer \<Rightarrow> jstring"
  xlsxRead :: "buffer \<Rightarrow> (jstring \<times> 'ws) list option"
  sheet_to_json :: "'ws \<Rightarrow> grid"
  aoa_to_sheet :: "grid \<Rightarrow> 'ws"
  xlsxWrite :: "(jstring \<times> 'ws) list \<Rightarrow> buffer option"

datatype error =
    NoParsedData
  | WriteFailed
  | ConversionFailed error
  | UnsupportedFormat
  | FileTooLarge

definition textBasedRecovery :: "'ws xlsx \<Rightarrow> buffer \<Rightarrow> error + (jstring \<times> 'ws) list" where
  "textBasedRecovery L buf =
     (let data = recoveredData (decodeText L buf)
      in if data = [] then Inl NoParsedData
         else Inr [(lit ''Sheet1'', aoa_to_sheet L data)])"

section \<open>WorkbookNormalizer: sanitizeFilename and normalizeWorkbook\<close>

definition allowedChar :: "jchar \<Rightarrow> bool" where
  "allowedChar c \<longleftrightarrow>
     (65 \<le> c \<and> c \<le> 90) \<or> (97 \<le> c \<and> c \<le> 122) \<or> isDigit c \<or> c = 95 \<or>
     (44032 \<le> c \<and> c \<le> 55203) \<or> c = 46 \<or> c = 45"

fun collapseUnderscores :: "jstring \<Rightarrow> jstring" where
  "collapseUnderscores (a # b # cs) =
     (if a = 95 \<and> b = 95 then collapseUnderscores (b # cs)
      else a # collapseUnderscores (b # cs))"
| "collapseUnderscores cs = cs"

definition sanitizeFilename :: "jstring \<Rightarrow> jstring" where
  "sanitizeFilename filename =
     (let sanitized = trim (collapseUnderscores (map (\<lambda>c. if allowedChar c then c else 95) filename))
      in if sanitized = [] then lit ''converted_file'' else sanitized)"

definition normalizeValue :: "cell \<Rightarrow> cell" where
  "normalizeValue cell = (case cell of CStr s \<Rightarrow> normalizeCell s | _ \<Rightarrow> cell)"

definition normalizeData :: "grid \<Rightarrow> grid" where
  "normalizeData jsonData = map (\<lambda>row. map normalizeValue row) jsonData"

definition normalizeWorkbook :: "'ws xlsx \<Rightarrow> (jstring \<times> 'ws) list \<Rightarrow> (jstring \<times> 'ws) list" where
  "normalizeWorkbook L workbook =
     map (\<lambda>(sheetName, worksheet).
            (take 31 (sanitizeFilename sheetName),
             aoa_to_sheet L (normalizeData (sheet_to_json L worksheet))))
         workbook"

section \<open>Top-level conversion: convertToXlsx and processFile\<close>

definition fileExtension :: "jstring \<Rightarrow> jstring" where
  "fileExtension filename = last (splitOn 46 (toLowerCase filename))"

text \<open>A cell that makes the header valid: truthy, and not blank once converted to a
  string (a truthy number, boolean or date never prints as a blank string).\<close>

definition validHeaderCell :: "cell \<Rightarrow> bool" where
  "validHeaderCell cell =
     (case cell of
        CNull \<Rightarrow> False
      | CStr s \<Rightarrow> s \<noteq> [] \<and> trim s \<noteq> []
      | CNum n \<Rightarrow> n \<noteq> 0
      | CBool b \<Rightarrow> b
      | CDate y m d \<Rightarrow> True)"

text \<open>The standard parser with its two checks; \<open>None\<close> is any of the three throws that
  send the conversion to the text recovery.\<close>

definition standardParse :: "'ws xlsx \<Rightarrow> buffer \<Rightarrow> (jstring \<times> 'ws) list option" where
  "standardParse L buf =
     (case xlsxRead L buf of
        None \<Rightarrow> None
      | Some workbook \<Rightarrow>
          (case workbook of
             [] \<Rightarrow> None
           | (firstName, firstSheet) # others \<Rightarrow>
               (let jsonData = sheet_to_json L firstSheet;
                    hasValidHeader = (jsonData \<noteq> [] \<and> list_ex validHeaderCell (hd jsonData))
                in if hasValidHeader then Some workbook else None)))"

text \<open>The workbook handed to the writer (the variable \<open>normalizedWorkbook\<close>): the
  standard parse or the text recovery, then the normalization.\<close>

definition normalizedWorkbook :: "'ws xlsx \<Rightarrow> buffer \<Rightarrow> bool \<Rightarrow> error + (jstring \<times> 'ws) list" where
  "normalizedWorkbook L buf forceTextRecovery =
     (case (if \<not> forceTextRecovery then
              (case standardParse L buf of
                 Some workbook \<Rightarrow> Inr workbook
               | None \<Rightarrow> textBasedRecovery L buf)
            else textBasedRecovery L buf) of
        Inl e \<Rightarrow> Inl e
      | Inr workbook \<Rightarrow> Inr (normalizeWorkbook L workbook))"

definition convertToXlsx :: "'ws xlsx \<Rightarrow> buffer \<Rightarrow> jstring \<Rightarrow> bool \<Rightarrow> error + buffer" where
  "convertToXlsx L buf filename forceTextRecovery =
     (if fileExtension filename = lit ''xlsx'' then Inr buf
      else
        (case normalizedWorkbook L buf forceTextRecovery of
           Inl e \<Rightarrow> Inl (ConversionFailed e)
         | Inr workbook \<Rightarrow>
             (case xlsxWrite L workbook of
                None \<Rightarrow> Inl (ConversionFailed WriteFailed)
              | Some xlsxBuffer \<Rightarrow> Inr xlsxBuffer)))"







datatype warning = MuchLarger | MuchSmaller

record ConversionResult =
  success :: bool
  buffer :: "buffer option"
  filename :: jstring
  originalSize :: nat
  convertedSize :: "nat option"
  message :: "error option"
  warnings :: "warning list option"




text \<open>
  A library instance for evaluating the model on concrete inputs: the text is decoded
  as Latin-1 (one code unit per byte), the reader takes the buffer as comma-separated
  lines of string cells on one sheet, a worksheet is its array of rows, and the writer
  emits one byte per cell.
\<close>

definition plainLibrary :: "grid xlsx" where
  "plainLibrary =
     \<lparr> decodeText = (\<lambda>buf. buf),
       xlsxRead = (\<lambda>buf. Some [(lit ''Sheet1'', map (\<lambda>line. map CStr (splitOn 44 line)) (splitOn 10 buf))]),
       sheet_to_json = (\<lambda>ws. ws),
       aoa_to_sheet = (\<lambda>data. data),
       xlsxWrite = (\<lambda>workbook. Some (concat (map (\<lambda>(sheetName, ws). map (\<lambda>cell. 0) (concat ws)) workbook))) \<rparr>"




section \<open>Facts about trimming\<close>

lemma trim_Nil [simp]: "trim [] = []"
  by (simp add: trim_def trimEnd_def)


lemma trimEnd_idem: "trimEnd (trimEnd s) = trimEnd s"
  by (simp add: trimEnd_def)

lemma trimEnd_Nil_iff: "trimEnd s = [] \<longleftrightarrow> (\<forall>c\<in>set s. isSpace c)"
  by (auto simp: trimEnd_def dropWhile_eq_Nil_conv)

lemma trimEnd_Cons: "\<not> isSpace c \<Longrightarrow> trimEnd (c # s) = c # trimEnd s"
  by (simp add: trimEnd_def dropWhile_append)

lemma trimEnd_snoc: "\<not> isSpace c \<Longrightarrow> trimEnd (s @ [c]) = s @ [c]"
  by (simp add: trimEnd_def)

lemma trim_Cons_nonspace: "\<not> isSpace c \<Longrightarrow> trim (c # s) = c # trimEnd s"
  by (simp add: trim_def trimEnd_Cons)

lemma trim_Cons_space: "isSpace c \<Longrightarrow> trim (c # s) = trim s"
  by (simp add: trim_def)

lemma trim_idem: "trim (trim s) = trim s"
proof (cases "dropWhile isSpace s")
  case Nil
  have "trim s = []" unfolding trim_def Nil by (simp add: trimEnd_def)
  then show ?thesis by simp
next
  case (Cons c t)
  then have "\<not> isSpace c" using hd_dropWhile[of isSpace s] by auto
  then show ?thesis using Cons by (simp add: trim_def trimEnd_Cons trimEnd_idem)
qed

lemma trim_trimEnd: "trim (trimEnd s) = trim s"
proof (induction s)
  case Nil
  then show ?case by (simp add: trim_def trimEnd_def)
next
  case (Cons c s)
  show ?case
  proof (cases "isSpace c")
    case False
    then show ?thesis by (simp add: trim_Cons_nonspace trimEnd_Cons trimEnd_idem)
  next
    case True
    show ?thesis
    proof (cases "\<forall>x\<in>set s. isSpace x")
      case True
      with \<open>isSpace c\<close> have "trimEnd (c # s) = []" by (simp add: trimEnd_Nil_iff)
      moreover have "dropWhile isSpace (c # s) = []" using True \<open>isSpace c\<close>
        by (simp add: dropWhile_eq_Nil_conv)
      then have "trim (c # s) = []" unfolding trim_def by (simp add: trimEnd_def)
      ultimately show ?thesis by simp
    next
      case False
      then have "trimEnd (c # s) = c # trimEnd s"
        by (auto simp: trimEnd_def dropWhile_append)
      then show ?thesis using True Cons by (simp add: trim_Cons_space)
    qed
  qed
qed


section \<open>The parenthesis rule of normalizeCell\<close>

text \<open>
  Claim C2. When the trimmed input contains both an opening and a closing parenthesis,
  \<open>normalizeCell\<close> returns the trimmed string as text: the rules for numbers,
  percentages, dates and booleans are not reached.
\<close>

theorem normalizeCell_parentheses_text:
  "40 \<in> set (trim v) \<Longrightarrow> 41 \<in> set (trim v) \<Longrightarrow> normalizeCell v = CStr (trim v)"
  by (auto simp: normalizeCell_def Let_def)

theorem normalizeCell_parentheses_text_witness:
  "40 \<in> set (trim (lit ''2024-01-01 (rev) '')) \<and> 41 \<in> set (trim (lit ''2024-01-01 (rev) '')) \<and>
   normalizeCell (lit ''2024-01-01 (rev) '') = CStr (lit ''2024-01-01 (rev)'') \<and>
   40 \<in> set (trim (lit ''true (flag)'')) \<and> 41 \<in> set (trim (lit ''true (flag)'')) \<and>
   normalizeCell (lit ''true (flag)'') = CStr (lit ''true (flag)'')"
  using normalizeCell_parentheses_text [of "lit ''2024-01-01 (rev) ''"]
    normalizeCell_parentheses_text [of "lit ''true (flag)''"]
  by (simp add: lit_def trim_def trimEnd_def isSpace_def)

section \<open>The row parser returns on every line\<close>

text \<open>Every run of the scanner pushes at least one cell, and every cell it pushes is
  the trimmed form of some string.\<close>

lemma scanLine_shape:
  "\<exists>cells. cells \<noteq> [] \<and> scanLine d q qc cur res line = res @ map trim cells"
proof (induction d q qc cur res line rule: scanLine.induct)
  case (1 delimiter inQuotes quoteChar current result)
  have "[current] \<noteq> [] \<and> scanLine delimiter inQuotes quoteChar current result [] = result @ map trim [current]"
    by simp
  then show ?case by blast
next
  case (2 delimiter inQuotes quoteChar current result c cs)
  let ?lhs = "scanLine delimiter inQuotes quoteChar current result (c # cs)"
  have same: "?lhs = scanLine delimiter q' qc' cur' result l' \<Longrightarrow>
      \<exists>cells. cells \<noteq> [] \<and> scanLine delimiter q' qc' cur' result l' = result @ map trim cells \<Longrightarrow>
      \<exists>cells. cells \<noteq> [] \<and> ?lhs = result @ map trim cells" for q' qc' cur' l'
    by simp
  show ?case
  proof (cases inQuotes)
    case False
    show ?thesis
    proof (cases "c = 34 \<or> c = 39")
      case True
      have "?lhs = scanLine delimiter True [c] current result cs"
        using False True by (subst scanLine.simps(2)) (simp del: scanLine.simps)
      then show ?thesis using "2.IH"(1)[OF False True] by (rule same)
    next
      case nq: False
      show ?thesis
      proof (cases "[c] = delimiter")
        case True
        have eq: "?lhs = scanLine delimiter False quoteChar [] (result @ [trim current]) cs"
          using False nq True by (subst scanLine.simps(2)) (simp del: scanLine.simps)
        from "2.IH"(2)[OF False nq True] obtain cells where
          "scanLine delimiter False quoteChar [] (result @ [trim current]) cs = (result @ [trim current]) @ map trim cells"
          by blast
        with eq have "current # cells \<noteq> [] \<and> ?lhs = result @ map trim (current # cells)" by simp
        then show ?thesis by blast
      next
        case nd: False
        have "?lhs = scanLine delimiter False quoteChar (current @ [c]) result cs"
          using False nq nd by (subst scanLine.simps(2)) (simp del: scanLine.simps)
        then show ?thesis using "2.IH"(3)[OF False nq nd] by (rule same)
      qed
    qed
  next
    case True
    then have nn: "\<not> \<not> inQuotes" by simp
    show ?thesis
    proof (cases "[c] = quoteChar")
      case qa: True
      show ?thesis
      proof (cases cs)
        case Nil
        have "?lhs = scanLine delimiter False [] current result cs"
          using True qa Nil by (subst scanLine.simps(2)) (simp del: scanLine.simps)
        then show ?thesis using "2.IH"(4)[OF nn qa Nil] by (rule same)
      next
        case (Cons c' cs')
        show ?thesis
        proof (cases "[c'] = quoteChar")
          case esc: True
          have "?lhs = scanLine delimiter True quoteChar (current @ [c]) result cs'"
            using True qa Cons esc by (subst scanLine.simps(2)) (simp del: scanLine.simps)
          then show ?thesis using "2.IH"(5)[OF nn qa Cons esc] by (rule same)
        next
          case ne: False
          have "?lhs = scanLine delimiter False [] current result cs"
            using True qa Cons ne by (subst scanLine.simps(2)) (simp del: scanLine.simps)
          then show ?thesis using "2.IH"(6)[OF nn qa Cons ne] by (rule same)
        qed
      qed
    next
      case nqa: False
      have "?lhs = scanLine delimiter True quoteChar (current @ [c]) result cs"
        using True nqa by (subst scanLine.simps(2)) (simp del: scanLine.simps)
      then show ?thesis using "2.IH"(7)[OF nn nqa] by (rule same)
    qed
  qed
qed

lemma splitOn_nonempty: "splitOn sep s \<noteq> []"
  by (induction s) (auto split: list.splits)

lemma scanLine_open_quote:
  "q \<notin> set body \<Longrightarrow> scanLine d True [q] cur res body = res @ [trim (cur @ body)]"
  by (induction body arbitrary: cur) auto

lemma scanLine_unquoted:
  "34 \<notin> set pre \<Longrightarrow> 39 \<notin> set pre \<Longrightarrow>
   scanLine [dc] False qc cur res (pre @ rest) =
   scanLine [dc] False qc (last ((cur @ hd (splitOn dc pre)) # tl (splitOn dc pre)))
     (res @ map trim (butlast ((cur @ hd (splitOn dc pre)) # tl (splitOn dc pre)))) rest"
proof (induction pre arbitrary: cur res)
  case Nil
  then show ?case by simp
next
  case (Cons c cs)
  obtain f fs where sp: "splitOn dc cs = f # fs"
    using splitOn_nonempty[of dc cs] by (cases "splitOn dc cs") auto
  from Cons.prems have nq: "c \<noteq> 34" "c \<noteq> 39" "34 \<notin> set cs" "39 \<notin> set cs" by auto
  have step: "scanLine [dc] False qc cur res ((c # cs) @ rest) =
      (if c = dc then scanLine [dc] False qc [] (res @ [trim cur]) (cs @ rest)
       else scanLine [dc] False qc (cur @ [c]) res (cs @ rest))"
    using nq by simp
  show ?case
  proof (cases "c = dc")
    case True
    have "scanLine [dc] False qc cur res ((c # cs) @ rest) =
          scanLine [dc] False qc [] (res @ [trim cur]) (cs @ rest)"
      using step True by simp
    also have "\<dots> = scanLine [dc] False qc (last (([] @ hd (splitOn dc cs)) # tl (splitOn dc cs)))
        ((res @ [trim cur]) @ map trim (butlast (([] @ hd (splitOn dc cs)) # tl (splitOn dc cs)))) rest"
      by (rule Cons.IH[OF nq(3,4)])
    finally show ?thesis using True sp by (simp del: scanLine.simps)
  next
    case False
    have "scanLine [dc] False qc cur res ((c # cs) @ rest) =
          scanLine [dc] False qc (cur @ [c]) res (cs @ rest)"
      using step False by simp
    also have "\<dots> = scanLine [dc] False qc (last (((cur @ [c]) @ hd (splitOn dc cs)) # tl (splitOn dc cs)))
        (res @ map trim (butlast (((cur @ [c]) @ hd (splitOn dc cs)) # tl (splitOn dc cs)))) rest"
      by (rule Cons.IH[OF nq(3,4)])
    finally show ?thesis using False sp by (simp del: scanLine.simps)
  qed
qed

lemma parseCSVLine_unterminated:
  assumes "q = 34 \<or> q = 39" "q \<notin> set body" "34 \<notin> set pre" "39 \<notin> set pre"
    and "trim (pre @ q # body) = pre @ q # body"
  shows "parseCSVLine (pre @ q # body) [dc] =
         map trim (butlast (splitOn dc pre)) @ [trim (last (splitOn dc pre) @ body)]"
proof -
  obtain f fs where sp: "splitOn dc pre = f # fs"
    using splitOn_nonempty[of dc pre] by (cases "splitOn dc pre") auto
  have "parseCSVLine (pre @ q # body) [dc] = scanLine [dc] False [] [] [] (pre @ q # body)"
    by (simp add: parseCSVLine_def assms(5))
  also have "\<dots> = scanLine [dc] False [] (last (f # fs)) (map trim (butlast (f # fs))) (q # body)"
    using scanLine_unquoted[OF assms(3,4), of dc "[]" "[]" "[]" "q # body"] sp
    by (simp del: scanLine.simps)
  also have "\<dots> = scanLine [dc] True [q] (last (f # fs)) (map trim (butlast (f # fs))) body"
    using assms(1) by (subst scanLine.simps(2)) (simp del: scanLine.simps)
  also have "\<dots> = map trim (butlast (f # fs)) @ [trim (last (f # fs) @ body)]"
    by (rule scanLine_open_quote[OF assms(2)])
  finally show ?thesis using sp by simp
qed

text \<open>
  Claim C9. \<open>parseCSVLine\<close> returns a row for every line and every delimiter: the row
  is never empty and each of its cells is trimmed. When a quote opens after an unquoted
  prefix and is never closed, the cells before it are those of the prefix, and what
  follows the quote, delimiters included, is flushed into the final cell. On the line
  \<open>"a,"b,c\<close> with the comma as delimiter the row is \<open>a,b\<close> and \<open>c\<close>.
\<close>

theorem parseCSVLine_total_best_effort:
  "parseCSVLine line delimiter \<noteq> [] \<and>
   (\<forall>cell\<in>set (parseCSVLine line delimiter). trim cell = cell) \<and>
   ((q = 34 \<or> q = 39) \<and> q \<notin> set body \<and> 34 \<notin> set pre \<and> 39 \<notin> set pre \<and>
      trim (pre @ q # body) = pre @ q # body \<longrightarrow>
    parseCSVLine (pre @ q # body) [dc] =
      map trim (butlast (splitOn dc pre)) @ [trim (last (splitOn dc pre) @ body)]) \<and>
   parseCSVLine (34 # lit ''a,'' @ 34 # lit ''b,c'') (lit '','') = [lit ''a,b'', lit ''c'']"
proof (intro conjI impI ballI)
  show "parseCSVLine line delimiter \<noteq> []"
    using scanLine_shape[of delimiter False "[]" "[]" "[]" "trim line"]
    by (auto simp: parseCSVLine_def)
next
  fix cell assume "cell \<in> set (parseCSVLine line delimiter)"
  then show "trim cell = cell"
    using scanLine_shape[of delimiter False "[]" "[]" "[]" "trim line"]
    by (auto simp: parseCSVLine_def trim_idem)
next
  assume "(q = 34 \<or> q = 39) \<and> q \<notin> set body \<and> 34 \<notin> set pre \<and> 39 \<notin> set pre \<and>
      trim (pre @ q # body) = pre @ q # body"
  then show "parseCSVLine (pre @ q # body) [dc] =
      map trim (butlast (splitOn dc pre)) @ [trim (last (splitOn dc pre) @ body)]"
    by (intro parseCSVLine_unterminated) simp_all
next
  show "parseCSVLine (34 # lit ''a,'' @ 34 # lit ''b,c'') (lit '','') = [lit ''a,b'', lit ''c'']"
    by (simp add: parseCSVLine_def lit_def trim_def trimEnd_def isSpace_def)
qed

theorem parseCSVLine_total_best_effort_witness:
  "34 \<notin> set (lit ''b,c'') \<and> 34 \<notin> set (lit ''a, '') \<and>
   39 \<notin> set (lit ''a, '') \<and>
   trim (lit ''a, '' @ 34 # lit ''b,c'') = lit ''a, '' @ 34 # lit ''b,c'' \<and>
   parseCSVLine (lit ''a, '' @ 34 # lit ''b,c'') [44] = [lit ''a'', lit ''b,c'']"
  using parseCSVLine_total_best_effort
    [of "lit ''a, '' @ 34 # lit ''b,c ''" "lit '',''" 34 "lit ''b,c''" "lit ''a, ''" 44]
  by (simp add: parseCSVLine_def lit_def trim_def trimEnd_def isSpace_def)

section \<open>The numeric rule of normalizeCell\<close>





lemma digitsValue_Nil [simp]: "digitsValue [] = 0"
  by (simp add: digitsValue_def)









section \<open>The workbook normalizer applied twice\<close>

















section \<open>The grid of the recovery pipeline\<close>

lemma recoverLines_inv:
  "recoverLines d i ls (data, mx) = (data', mx') \<Longrightarrow> \<forall>r\<in>set data. length r \<le> mx \<Longrightarrow>
   (\<forall>r\<in>set data'. length r \<le> mx') \<and> mx \<le> mx' \<and> (\<exists>new. data' = data @ new)"
proof (induction ls arbitrary: i data mx)
  case Nil
  then show ?case by simp
next
  case (Cons l ls)
  let ?row = "processedCells i (parseCSVLine l [d])"
  let ?mx = "max mx (length ?row)"
  let ?data = "if i = 0 \<or> someNonEmpty ?row then data @ [?row] else data"
  have step: "recoverLines d (Suc i) ls (?data, ?mx) = (data', mx')"
    using Cons.prems(1) by (simp add: Let_def)
  have inv: "\<forall>r\<in>set ?data. length r \<le> ?mx"
    using Cons.prems(2) by (auto simp: max_def)
  from Cons.IH[OF step inv] show ?case by (auto split: if_splits)
qed


lemma padRow_length: "length r \<le> mx \<Longrightarrow> length (padRow mx r) = mx"
  by (simp add: padRow_def)

lemma recoveredData_rect:
  "\<exists>data maxColumns.
     recoverLines (detectDelimiter text) 0 (filter nonBlank (splitOn 10 text)) ([], 0) = (data, maxColumns) \<and>
     (\<forall>row\<in>set data. length row \<le> maxColumns) \<and>
     recoveredData text = map (\<lambda>row. row @ replicate (maxColumns - length row) (CStr [])) data \<and>
     (\<forall>row\<in>set (recoveredData text). length row = maxColumns)"
proof -
  obtain data mx where r: "recoverLines (detectDelimiter text) 0 (filter nonBlank (splitOn 10 text)) ([], 0) = (data, mx)"
    by (cases "recoverLines (detectDelimiter text) 0 (filter nonBlank (splitOn 10 text)) ([], 0)")
  have inv: "\<forall>row\<in>set data. length row \<le> mx"
    using recoverLines_inv[OF r] by simp
  have eq: "recoveredData text = map (padRow mx) data"
    using r by (simp add: recoveredData_def Let_def)
  have "\<forall>row\<in>set (recoveredData text). length row = mx"
    using inv by (auto simp: eq padRow_length)
  then show ?thesis using r inv eq by (auto simp: padRow_def)
qed



text \<open>
  Claim C3. After the padding step every row of the grid built by the recovery
  pipeline has the length of row 0: each retained row is the parsed row followed by
  empty cells up to \<open>maxColumns\<close>, the largest width seen, which no retained row
  exceeds.
\<close>

theorem recoveredData_rectangular:
  "(\<forall>row\<in>set (recoveredData decoded). length row = length (hd (recoveredData decoded))) \<and>
   (\<exists>data maxColumns.
      recoverLines (detectDelimiter decoded) 0 (filter nonBlank (splitOn 10 decoded)) ([], 0) = (data, maxColumns) \<and>
      (\<forall>row\<in>set data. length row \<le> maxColumns) \<and>
      recoveredData decoded = map (\<lambda>row. row @ replicate (maxColumns - length row) (CStr [])) data \<and>
      (\<forall>row\<in>set (recoveredData decoded). length row = maxColumns))"
proof -
  from recoveredData_rect[of decoded] obtain data mx where
    r: "recoverLines (detectDelimiter decoded) 0 (filter nonBlank (splitOn 10 decoded)) ([], 0) = (data, mx)"
    and inv: "\<forall>row\<in>set data. length row \<le> mx"
    and eq: "recoveredData decoded = map (\<lambda>row. row @ replicate (mx - length row) (CStr [])) data"
    and len: "\<forall>row\<in>set (recoveredData decoded). length row = mx"
    by blast
  have "\<forall>row\<in>set (recoveredData decoded). length row = length (hd (recoveredData decoded))"
  proof (cases "recoveredData decoded")
    case Nil
    then show ?thesis by simp
  next
    case (Cons h t)
    then have "length h = mx" using len by simp
    then show ?thesis using len Cons by simp
  qed
  then show ?thesis using r inv eq len by blast
qed

lemma detect_ab: "detectDelimiter (lit ''a,b'' @ 10 # lit ''1,2,3'') = 44"
  by (simp add: lit_def trim_def trimEnd_def isSpace_def detectDelimiter_def delimiterScore_def
      delimiters_def columnCounts_def sampleLines_def nonBlank_def scoreOf_def)

theorem recoveredData_rectangular_witness:
  "recoveredData (lit ''a,b'' @ 10 # lit ''1,2,3'') =
     [[CStr (lit ''a''), CStr (lit ''b''), CStr []], [CNum 1, CNum 2, CNum 3]] \<and>
   list_all (\<lambda>row. length row = length (hd (recoveredData (lit ''a,b'' @ 10 # lit ''1,2,3''))))
     (recoveredData (lit ''a,b'' @ 10 # lit ''1,2,3''))"
proof -
  have v: "recoveredData (lit ''a,b'' @ 10 # lit ''1,2,3'') =
     [[CStr (lit ''a''), CStr (lit ''b''), CStr []], [CNum 1, CNum 2, CNum 3]]"
    unfolding recoveredData_def detect_ab
    by (simp add: lit_def trim_def trimEnd_def isSpace_def nonBlank_def
      processedCells_def headerCells_def someNonEmpty_def padRow_def parseCSVLine_def
      normalizeCell_def numberRule_def numberMatch_def stripMinus_def isDigitOrComma_def isDigit_def
      parseFloat_def removeCommas_def digitsValue_def isFiniteNum_def)
  show ?thesis
    using recoveredData_rectangular [of "lit ''a,b'' @ 10 # lit ''1,2,3''"] v
    by (simp add: list_all_iff)
qed

lemma detect_blank_headers: "detectDelimiter (lit ''a,,,d'' @ 10 # lit ''1,2,3,4'') = 44"
  by (simp add: lit_def trim_def trimEnd_def isSpace_def detectDelimiter_def delimiterScore_def
      delimiters_def columnCounts_def sampleLines_def nonBlank_def scoreOf_def)

text \<open>
  Claim C6. The placeholder of a blank header cell is numbered by \<open>indexOf\<close>, the
  position of the first cell with the same content. On the header \<open>a,,,d\<close> the second
  and the third cell are both blank and both receive the label numbered 2; the label
  numbered 3, which the position of the third cell calls for, is not produced.
\<close>

theorem blank_header_placeholders_by_content:
  "recoveredData (lit ''a,,,d'' @ 10 # lit ''1,2,3,4'') =
     [[CStr (lit ''a''), CStr ([52972, 47100] @ lit ''2''), CStr ([52972, 47100] @ lit ''2''),
       CStr (lit ''d'')],
      [CNum 1, CNum 2, CNum 3, CNum 4]]"
  unfolding recoveredData_def detect_blank_headers
  by (simp add: lit_def trim_def trimEnd_def isSpace_def nonBlank_def
      processedCells_def headerCells_def someNonEmpty_def padRow_def parseCSVLine_def
      placeholder_def digitsOf.simps
      normalizeCell_def numberRule_def numberMatch_def stripMinus_def isDigitOrComma_def isDigit_def
      parseFloat_def removeCommas_def digitsValue_def isFiniteNum_def)

section \<open>The pass-through of the canonical format\<close>

lemma splitOn_length: "length (splitOn sep s) = Suc (count_list s sep)"
proof (induction s)
  case Nil
  then show ?case by simp
next
  case (Cons c s)
  obtain p ps where "splitOn sep s = p # ps"
    using splitOn_nonempty[of sep s] by (cases "splitOn sep s") auto
  then show ?case using Cons by auto
qed

lemma splitOn_last: "sep \<notin> set e \<Longrightarrow> last (splitOn sep (b @ sep # e)) = e"
proof (induction b)
  case Nil
  have "splitOn sep e = [e]" using Nil by (induction e) auto
  then show ?case by simp
next
  case (Cons c b)
  obtain p ps where sp: "splitOn sep (b @ sep # e) = p # ps"
    using splitOn_nonempty[of sep "b @ sep # e"] by (cases "splitOn sep (b @ sep # e)") auto
  have "length (splitOn sep (b @ sep # e)) \<ge> 2"
    by (simp add: splitOn_length)
  then have "ps \<noteq> []" using sp by auto
  then show ?case using Cons sp by auto
qed

text \<open>
  Claim C8. When the last dot-separated part of the lower-cased file name is \<open>xlsx\<close>,
  \<open>convertToXlsx\<close> returns the input buffer itself, whatever the library does and
  whatever the value of \<open>forceTextRecovery\<close> is. This is the case of every name that
  ends with a dot and an extension spelled \<open>xlsx\<close> in any letter case.
\<close>

theorem convertToXlsx_passthrough:
  "(fileExtension fname = lit ''xlsx'' \<longrightarrow>
      convertToXlsx L buf fname forceTextRecovery = Inr buf) \<and>
   (toLowerCase ext = lit ''xlsx'' \<longrightarrow>
      convertToXlsx L buf (base @ 46 # ext) forceTextRecovery = Inr buf)"
proof (intro conjI impI)
  assume "fileExtension fname = lit ''xlsx''"
  then show "convertToXlsx L buf fname forceTextRecovery = Inr buf"
    by (simp add: convertToXlsx_def)
next
  assume e: "toLowerCase ext = lit ''xlsx''"
  then have "46 \<notin> set (toLowerCase ext)" by (simp add: lit_def)
  then have "last (splitOn 46 (toLowerCase base @ 46 # toLowerCase ext)) = toLowerCase ext"
    by (rule splitOn_last)
  moreover have "toLowerCase (base @ 46 # ext) = toLowerCase base @ 46 # toLowerCase ext"
    by (simp add: toLowerCase_def)
  ultimately have "fileExtension (base @ 46 # ext) = lit ''xlsx''"
    using e by (simp add: fileExtension_def)
  then show "convertToXlsx L buf (base @ 46 # ext) forceTextRecovery = Inr buf"
    by (simp add: convertToXlsx_def)
qed

theorem convertToXlsx_passthrough_witness:
  "fileExtension (lit ''Report.v2.XLSX'') = lit ''xlsx'' \<and>
   convertToXlsx plainLibrary (lit ''a,b'') (lit ''Report.v2.XLSX'') True = Inr (lit ''a,b'') \<and>
   convertToXlsx plainLibrary (lit ''a,b'') (lit ''Report.v2.XLSX'') False = Inr (lit ''a,b'')"
  using convertToXlsx_passthrough [of "lit ''Report.v2.XLSX''" plainLibrary "lit ''a,b''" True "[]" "[]"]
    convertToXlsx_passthrough [of "lit ''Report.v2.XLSX''" plainLibrary "lit ''a,b''" False "[]" "[]"]
  by (simp add: fileExtension_def toLowerCase_def lit_def)

section \<open>The header row\<close>












section \<open>A text without a non-blank line\<close>





section \<open>The delimiter inference\<close>









end
